theory Spec2Isabelle
  imports Main "HOL-Library.Word" "HOL-Library.Sublist" "HOL-Library.Char_ord"
begin

section \<open>Library operations the class visitor calls\<close>

text \<open>
  The visitor \<open>AsInterface\<close> (clients/spark/core/.../utils/AsInterface.scala) is a few
  lines of Scala over three library calls: \<open>Class.getName\<close>, ASM's
  \<open>Type.getType(iface).getInternalName\<close> and Scala's \<open>Regex.replaceAllIn\<close>, which feeds
  the replacer's result to \<open>java.util.regex.Matcher.appendReplacement\<close>.  This section
  gives each of them what the JDK, ASM and Scala documentation say they compute.
  Strings are lists of 8-bit characters; every character class of the source's pattern
  is ASCII.
\<close>

datatype jexception = IllegalArgumentException | IndexOutOfBoundsException

text \<open>A \<open>java.lang.Class\<close> object of a class or interface (never a primitive or an
  array type), known by the binary name \<open>getName\<close> returns, as in \<open>io.treeverse.utils.A\<close>.\<close>

datatype jclass = JClass (getName: string)

text \<open>\<open>s.replaceAll("""\.""", "/")\<close>: every dot becomes a slash.\<close>

definition replaceAll_dot :: "string \<Rightarrow> string" where
  "replaceAll_dot s = map (\<lambda>c. if c = CHR ''.'' then CHR ''/'' else c) s"

text \<open>\<open>Type.getType(iface).getInternalName\<close>: for a class or interface, ASM builds the
  descriptor \<open>L\<close> + name with dots as slashes + \<open>;\<close> and the internal name is the part
  between.\<close>

definition getInternalName :: "jclass \<Rightarrow> string" where
  "getInternalName c = map (\<lambda>ch. if ch = CHR ''.'' then CHR ''/'' else ch) (getName c)"

subsection \<open>The pattern \<open>\)L([a-zA-Z_0-9/]+);\<close>\<close>

text \<open>The character class \<open>[a-zA-Z_0-9/]\<close>.\<close>

definition nameChar :: "char \<Rightarrow> bool" where
  "nameChar c =
     ((CHR ''a'' \<le> c \<and> c \<le> CHR ''z'') \<or> (CHR ''A'' \<le> c \<and> c \<le> CHR ''Z'') \<or> c = CHR ''_''
      \<or> (CHR ''0'' \<le> c \<and> c \<le> CHR ''9'') \<or> c = CHR ''/'')"

text \<open>
  \<open>descReturnType s\<close> tries the pattern at the start of \<open>s\<close>: a closing parenthesis, an
  \<open>L\<close>, one or more name characters (group 1) and a semicolon.  It returns group 1 and
  the input left after the match.  The greedy \<open>+\<close> never backtracks to a shorter
  match, because the semicolon that must follow is no name character.
\<close>

definition descReturnType :: "string \<Rightarrow> (string \<times> string) option" where
  "descReturnType s =
     (case s of
        c1 # c2 # t \<Rightarrow>
          if c1 = CHR '')'' \<and> c2 = CHR ''L'' then
            (case dropWhile nameChar t of
               [] \<Rightarrow> None
             | c3 # rest \<Rightarrow>
                 if takeWhile nameChar t \<noteq> [] \<and> c3 = CHR '';''
                 then Some (takeWhile nameChar t, rest) else None)
          else None
      | _ \<Rightarrow> None)"

subsection \<open>\<open>Matcher.appendReplacement\<close>: dollar signs and backslashes in a replacement\<close>

definition isDigit :: "char \<Rightarrow> bool" where
  "isDigit c = (CHR ''0'' \<le> c \<and> c \<le> CHR ''9'')"

definition digitVal :: "char \<Rightarrow> nat" where
  "digitVal c = of_char c - of_char (CHR ''0'')"

text \<open>
  After \<open>$d\<close> the JDK reads further digits for as long as the number stays a group of
  the pattern; the pattern here has one group, so \<open>groupCount\<close> is 1.
\<close>

fun groupRef :: "nat \<Rightarrow> string \<Rightarrow> nat \<times> string" where
  "groupRef refNum [] = (refNum, [])"
| "groupRef refNum (d # ds) =
     (if isDigit d then
        (let newRefNum = refNum * 10 + digitVal d
         in if 1 < newRefNum then (refNum, d # ds) else groupRef newRefNum ds)
      else (refNum, d # ds))"

lemma groupRef_length: "length (snd (groupRef n ds)) \<le> length ds"
  by (induction n ds rule: groupRef.induct) (auto simp: Let_def)

text \<open>
  \<open>expandReplacement m g r\<close> is the text \<open>appendReplacement\<close> appends for the replacement
  string \<open>r\<close> when the whole match is \<open>m\<close> and group 1 is \<open>g\<close>.  A backslash quotes the
  next character; a dollar sign must be followed by a group number (a named group
  \<open>${name}\<close> cannot exist, the pattern names none); a group number above
  \<open>groupCount\<close> makes \<open>Matcher.start\<close> throw \<open>IndexOutOfBoundsException\<close>.
\<close>

function expandReplacement :: "string \<Rightarrow> string \<Rightarrow> string \<Rightarrow> jexception + string" where
  "expandReplacement m g [] = Inr []"
| "expandReplacement m g (c # cs) =
     (if c = CHR 0x5C then
        (case cs of
           [] \<Rightarrow> Inl IllegalArgumentException
         | d # ds \<Rightarrow>
             (case expandReplacement m g ds of
                Inl e \<Rightarrow> Inl e
              | Inr out \<Rightarrow> Inr (d # out)))
      else if c = CHR ''$'' then
        (case cs of
           [] \<Rightarrow> Inl IllegalArgumentException
         | d # ds \<Rightarrow>
             if \<not> isDigit d then Inl IllegalArgumentException
             else if 1 < fst (groupRef (digitVal d) ds) then Inl IndexOutOfBoundsException
             else
               (case expandReplacement m g (snd (groupRef (digitVal d) ds)) of
                  Inl e \<Rightarrow> Inl e
                | Inr out \<Rightarrow>
                    Inr ((if fst (groupRef (digitVal d) ds) = 0 then m else g) @ out)))
      else
        (case expandReplacement m g cs of
           Inl e \<Rightarrow> Inl e
         | Inr out \<Rightarrow> Inr (c # out)))"
  by pat_completeness auto
termination
proof (relation "measure (\<lambda>(m, g, r). length r)")
  show "wf (measure (\<lambda>(m, g, r). length r))" by simp
next
  fix m g :: string and c :: char and cs :: string and d :: char and ds :: string
  assume "cs = d # ds"
  then show "((m, g, ds), (m, g, c # cs)) \<in> measure (\<lambda>(m, g, r). length r)" by simp
next
  fix m g :: string and c :: char and cs :: string and d :: char and ds :: string
  assume "cs = d # ds"
  moreover have "length (snd (groupRef (digitVal d) ds)) \<le> length ds"
    by (rule groupRef_length)
  ultimately show "((m, g, snd (groupRef (digitVal d) ds)), (m, g, c # cs))
      \<in> measure (\<lambda>(m, g, r). length r)" by simp
next
  fix m g :: string and c :: char and cs :: string
  show "((m, g, cs), (m, g, c # cs)) \<in> measure (\<lambda>(m, g, r). length r)" by simp
qed

subsection \<open>\<open>Regex.replaceAllIn\<close> for the pattern\<close>

lemma descReturnType_shorter:
  "descReturnType s = Some (g, rest) \<Longrightarrow> length rest < length s"
proof -
  assume a: "descReturnType s = Some (g, rest)"
  then obtain c1 c2 t c3 where s: "s = c1 # c2 # t" and d: "dropWhile nameChar t = c3 # rest"
    by (auto simp: descReturnType_def split: list.splits if_splits)
  have "length (dropWhile nameChar t) \<le> length t" by (rule length_dropWhile_le)
  with s d show ?thesis by simp
qed

text \<open>
  \<open>replaceAllIn replacer target\<close> scans \<open>target\<close> from the left.  Where the pattern
  matches, the replacer is called with the match (whole text and group 1), its result
  goes through \<open>expandReplacement\<close>, and the scan goes on after the match; other
  characters are copied.  The first exception ends the call.
\<close>

function replaceAllIn :: "(string \<Rightarrow> string \<Rightarrow> string) \<Rightarrow> string \<Rightarrow> jexception + string" where
  "replaceAllIn replacer [] = Inr []"
| "replaceAllIn replacer (c # cs) =
     (case descReturnType (c # cs) of
        None \<Rightarrow>
          (case replaceAllIn replacer cs of
             Inl e \<Rightarrow> Inl e
           | Inr out \<Rightarrow> Inr (c # out))
      | Some (g, rest) \<Rightarrow>
          (case expandReplacement ('')L'' @ g @ '';'') g (replacer ('')L'' @ g @ '';'') g) of
             Inl e \<Rightarrow> Inl e
           | Inr rep \<Rightarrow>
               (case replaceAllIn replacer rest of
                  Inl e \<Rightarrow> Inl e
                | Inr out \<Rightarrow> Inr (rep @ out))))"
  by pat_completeness auto
termination
proof (relation "measure (\<lambda>(f, s). length s)")
  show "wf (measure (\<lambda>(f, s). length s))" by simp
next
  fix replacer :: "string \<Rightarrow> string \<Rightarrow> string" and c :: char and cs :: string
  show "((replacer, cs), (replacer, c # cs)) \<in> measure (\<lambda>(f, s). length s)" by simp
next
  fix replacer :: "string \<Rightarrow> string \<Rightarrow> string" and c :: char and cs :: string
    and x2 :: "string \<times> string" and g rest :: string and rep :: string
  assume "descReturnType (c # cs) = Some x2" and "(g, rest) = x2"
  then have "length rest < length (c # cs)"
    using descReturnType_shorter [of "c # cs" g rest] by simp
  then show "((replacer, rest), (replacer, c # cs)) \<in> measure (\<lambda>(f, s). length s)" by simp
qed

section \<open>The class visitor \<open>AsInterface(cv, iface)\<close>\<close>

text \<open>
  The sources hold the class twice: once with \<open>visit\<close> alone, and once with
  \<open>descReturnType\<close>, \<open>translateDesc\<close> and \<open>visitMethod\<close> added; \<open>visit\<close> is the same in both.
  The longer one is followed here.

  The visitor forwards every call to the next visitor \<open>cv\<close>.  Each method below returns
  the arguments of the forwarded call, as a record.  \<open>Int\<close> is a 32-bit word; a
  \<open>signature\<close> or \<open>superName\<close> may be \<open>null\<close> (\<open>None\<close>) and is passed on as it is.  The
  \<open>interfaces\<close> array is the one ASM's \<open>ClassReader\<close> allocates for every class, so it is a
  list.
\<close>

record class_visit =
  c_version :: "32 word"
  c_access :: "32 word"
  c_name :: string
  c_signature :: "string option"
  c_superName :: "string option"
  c_interfaces :: "string list"

definition visit ::
  "jclass \<Rightarrow> 32 word \<Rightarrow> 32 word \<Rightarrow> string \<Rightarrow> string option \<Rightarrow> string option \<Rightarrow> string list
     \<Rightarrow> class_visit" where
  "visit iface version access name signature superName interfaces =
     (let newInterfaces = interfaces @ [getInternalName iface]
      in \<lparr>c_version = version, c_access = access, c_name = name, c_signature = signature,
          c_superName = superName, c_interfaces = newInterfaces\<rparr>)"

text \<open>
  \<open>translateDesc\<close> replaces every match of the pattern in a method descriptor by
  \<open>)L\<close> + the interface's name with slashes + \<open>;\<close>.  The replacer ignores the match.
\<close>

definition translateDesc :: "jclass \<Rightarrow> string \<Rightarrow> jexception + string" where
  "translateDesc iface desc =
     replaceAllIn (\<lambda>m name. '')L'' @ replaceAll_dot (getName iface) @ '';'') desc"

text \<open>
  \<open>visitMethod\<close> prints one debug line, translates the descriptor and forwards the call.
  The result is the printed line and either the exception of \<open>translateDesc\<close> or the
  arguments of \<open>cv.visitMethod\<close>.  The method visitor it returns is the one \<open>cv\<close> returned,
  so the instructions of the body reach \<open>cv\<close> without passing through this class.
  \<open>exceptions\<close> is \<open>null\<close> (\<open>None\<close>) for a method that declares none.
\<close>

record method_visit =
  m_access :: "32 word"
  m_name :: string
  m_desc :: string
  m_signature :: "string option"
  m_exceptions :: "string list option"

definition visitMethod ::
  "jclass \<Rightarrow> 32 word \<Rightarrow> string \<Rightarrow> string \<Rightarrow> string option \<Rightarrow> string list option
     \<Rightarrow> string \<times> (jexception + method_visit)" where
  "visitMethod iface access name desc signature exceptions =
     (''[DEBUG] name '' @ name @ '' desc '' @ desc @ '' signature ''
        @ (case signature of None \<Rightarrow> ''null'' | Some sg \<Rightarrow> sg),
      case translateDesc iface desc of
        Inl e \<Rightarrow> Inl e
      | Inr d \<Rightarrow>
          Inr \<lparr>m_access = access, m_name = name, m_desc = d, m_signature = signature,
               m_exceptions = exceptions\<rparr>)"

section \<open>A class read through the visitor\<close>

text \<open>
  The instructions that occur in the design document's listings of \<open>C.x\<close>
  (\<open>aload\<close>, \<open>bipush\<close>, \<open>checkcast\<close>, \<open>invokevirtual\<close> with owner, name and descriptor,
  \<open>ireturn\<close>), and \<open>areturn\<close> for a method that returns an object.
\<close>

datatype instr =
  ALOAD nat
| BIPUSH int
| CHECKCAST string
| INVOKEVIRTUAL string string string
| IRETURN
| ARETURN

record jmethod =
  m_decl :: method_visit
  m_code :: "instr list"

record class_unit =
  u_header :: class_visit
  u_methods :: "jmethod list"

text \<open>
  ASM's \<open>ClassReader.accept\<close> calls \<open>visit\<close> once with the header and then \<open>visitMethod\<close>
  once per method, in the order of the class file, and sends each body to the method
  visitor it got back.  \<open>visitMethods\<close> is that loop over the visitor above: the emitted
  method has the forwarded declaration and the body as read.  An exception ends the
  loop; the lines printed so far stay printed.
\<close>

fun visitMethods :: "jclass \<Rightarrow> jmethod list \<Rightarrow> string list \<times> (jexception + jmethod list)" where
  "visitMethods iface [] = ([], Inr [])"
| "visitMethods iface (m # ms) =
     (case visitMethod iface (m_access (m_decl m)) (m_name (m_decl m)) (m_desc (m_decl m))
             (m_signature (m_decl m)) (m_exceptions (m_decl m)) of
        (line, Inl e) \<Rightarrow> ([line], Inl e)
      | (line, Inr mv) \<Rightarrow>
          (case visitMethods iface ms of
             (lines, Inl e) \<Rightarrow> (line # lines, Inl e)
           | (lines, Inr ms') \<Rightarrow>
               (line # lines, Inr (\<lparr>m_decl = mv, m_code = m_code m\<rparr> # ms'))))"

definition acceptAsInterface :: "jclass \<Rightarrow> class_unit \<Rightarrow> string list \<times> (jexception + class_unit)" where
  "acceptAsInterface iface unit =
     (let h = visit iface (c_version (u_header unit)) (c_access (u_header unit))
                (c_name (u_header unit)) (c_signature (u_header unit))
                (c_superName (u_header unit)) (c_interfaces (u_header unit))
      in case visitMethods iface (u_methods unit) of
           (lines, Inl e) \<Rightarrow> (lines, Inl e)
         | (lines, Inr ms) \<Rightarrow> (lines, Inr \<lparr>u_header = h, u_methods = ms\<rparr>))"

subsection \<open>The parameter types of a method descriptor\<close>

text \<open>
  A method descriptor is \<open>(\<close>, the descriptors of the parameters, \<open>)\<close> and the return
  descriptor (JVM specification, 4.3.3).  A parameter descriptor is a base type
  letter, \<open>L\<close> class name \<open>;\<close>, or \<open>[\<close> and a component type; a class name ends at
  the first semicolon and may hold any other character.  \<open>fieldType\<close> reads one
  descriptor from the start of a text and returns it with the text left.
\<close>

fun fieldType :: "string \<Rightarrow> (string \<times> string) option" where
  "fieldType [] = None"
| "fieldType (c # cs) =
     (if c \<in> set ''BCDFIJSZ'' then Some ([c], cs)
      else if c = CHR ''L'' then
        (case dropWhile (\<lambda>d. d \<noteq> CHR '';'') cs of
           [] \<Rightarrow> None
         | d # rest \<Rightarrow>
             if takeWhile (\<lambda>d. d \<noteq> CHR '';'') cs = [] then None
             else Some (c # takeWhile (\<lambda>d. d \<noteq> CHR '';'') cs @ [d], rest))
      else if c = CHR ''['' then
        (case fieldType cs of
           None \<Rightarrow> None
         | Some (f, rest) \<Rightarrow> Some (c # f, rest))
      else None)"

lemma fieldType_split: "fieldType s = Some (f, rest) \<Longrightarrow> s = f @ rest \<and> f \<noteq> []"
proof (induction s arbitrary: f rest)
  case Nil
  then show ?case by simp
next
  case (Cons c cs)
  show ?case
  proof (cases "c \<in> set ''BCDFIJSZ''")
    case True
    with Cons.prems show ?thesis by auto
  next
    case base: False
    show ?thesis
    proof (cases "c = CHR ''L''")
      case True
      with base Cons.prems obtain d where
        d: "dropWhile (\<lambda>d. d \<noteq> CHR '';'') cs = d # rest"
        and f: "f = c # takeWhile (\<lambda>d. d \<noteq> CHR '';'') cs @ [d]"
        by (auto split: list.splits if_splits)
      have "cs = takeWhile (\<lambda>d. d \<noteq> CHR '';'') cs @ dropWhile (\<lambda>d. d \<noteq> CHR '';'') cs"
        by simp
      with d have "cs = takeWhile (\<lambda>d. d \<noteq> CHR '';'') cs @ d # rest" by simp
      with f show ?thesis by simp
    next
      case notL: False
      with base Cons.prems obtain f' where
        "fieldType cs = Some (f', rest)" and "f = c # f'"
        by (auto split: option.splits if_splits)
      with Cons.IH [of f' rest] show ?thesis by simp
    qed
  qed
qed

lemma fieldType_shorter: "fieldType s = Some (f, rest) \<Longrightarrow> length rest < length s"
  using fieldType_split [of s f rest] by (cases f) auto

text \<open>
  \<open>parameterDescriptors\<close> reads parameter descriptors up to the closing parenthesis and
  returns them with the text after it; \<open>parameterTypes\<close> is the list of parameter
  descriptors of a whole method descriptor, \<open>None\<close> for a text that is none.
\<close>

function parameterDescriptors :: "string \<Rightarrow> (string list \<times> string) option" where
  "parameterDescriptors [] = None"
| "parameterDescriptors (c # cs) =
     (if c = CHR '')'' then Some ([], cs)
      else
        (case fieldType (c # cs) of
           None \<Rightarrow> None
         | Some (f, rest) \<Rightarrow>
             (case parameterDescriptors rest of
                None \<Rightarrow> None
              | Some (fs, r) \<Rightarrow> Some (f # fs, r))))"
  by pat_completeness auto
termination
proof (relation "measure length")
  show "wf (measure length)" by simp
next
  fix c :: char and cs :: string and x2 :: "string \<times> string" and f rest :: string
  assume "fieldType (c # cs) = Some x2" and "(f, rest) = x2"
  then have "length rest < length (c # cs)"
    using fieldType_shorter [of "c # cs" f rest] by simp
  then show "(rest, c # cs) \<in> measure length" by simp
qed

definition parameterTypes :: "string \<Rightarrow> string list option" where
  "parameterTypes desc =
     (case desc of
        [] \<Rightarrow> None
      | c # cs \<Rightarrow>
          if c = CHR ''('' then map_option fst (parameterDescriptors cs) else None)"


text \<open>
  The design document's class \<open>C\<close> with its method \<open>x\<close>, as the listing gives it
  (flags \<open>0x0001\<close>, descriptor \<open>(Lio/treeverse/utils/B;)I\<close>, four instructions).  The
  listing does not show the class header; the values here are those of a public
  Java 8 class without interfaces.
\<close>

definition methodX :: jmethod where
  "methodX =
     \<lparr>m_decl = \<lparr>m_access = 0x0001, m_name = ''x'', m_desc = ''(Lio/treeverse/utils/B;)I'',
                m_signature = None, m_exceptions = None\<rparr>,
      m_code = [ALOAD 1, BIPUSH 11, INVOKEVIRTUAL ''io/treeverse/utils/B'' ''a'' ''(I)I'',
                IRETURN]\<rparr>"

definition classC :: class_unit where
  "classC =
     \<lparr>u_header = \<lparr>c_version = 52, c_access = 0x0021, c_name = ''io/treeverse/utils/C'',
                  c_signature = None, c_superName = Some ''java/lang/Object'',
                  c_interfaces = []\<rparr>,
      u_methods = [methodX]\<rparr>"

text \<open>
  A class \<open>E\<close> in the manner of \<open>C\<close>, whose \<open>x\<close> passes its argument through a method of the
  same class: \<open>def pick(b: B): B = b\<close> and \<open>def x(b: B) = pick(b).a(11)\<close>.
\<close>

definition methodPick :: jmethod where
  "methodPick =
     \<lparr>m_decl = \<lparr>m_access = 0x0001, m_name = ''pick'',
                m_desc = ''(Lio/treeverse/utils/B;)Lio/treeverse/utils/B;'',
                m_signature = None, m_exceptions = None\<rparr>,
      m_code = [ALOAD 1, ARETURN]\<rparr>"

definition methodXviaPick :: jmethod where
  "methodXviaPick =
     \<lparr>m_decl = \<lparr>m_access = 0x0001, m_name = ''x'', m_desc = ''(Lio/treeverse/utils/B;)I'',
                m_signature = None, m_exceptions = None\<rparr>,
      m_code = [ALOAD 0, ALOAD 1,
                INVOKEVIRTUAL ''io/treeverse/utils/E'' ''pick''
                  ''(Lio/treeverse/utils/B;)Lio/treeverse/utils/B;'',
                BIPUSH 11, INVOKEVIRTUAL ''io/treeverse/utils/B'' ''a'' ''(I)I'', IRETURN]\<rparr>"

definition classE :: class_unit where
  "classE =
     \<lparr>u_header = \<lparr>c_version = 52, c_access = 0x0021, c_name = ''io/treeverse/utils/E'',
                  c_signature = None, c_superName = Some ''java/lang/Object'',
                  c_interfaces = []\<rparr>,
      u_methods = [methodPick, methodXviaPick]\<rparr>"

section \<open>The rewriter's contract and the loading context\<close>

text \<open>
  Modelled from the spec: the dispatch of \<open>rewrite(unit, registry)\<close> (spec 4.2), whose
  code, the loader that builds the visitor for a class, is not in the sources.  A unit
  whose name the registry maps to an interface is read through \<open>AsInterface\<close> with that
  interface; a unit the registry does not name is left as it is.
\<close>

definition rewrite ::
  "(string \<rightharpoonup> jclass) \<Rightarrow> class_unit \<Rightarrow> string list \<times> (jexception + class_unit)" where
  "rewrite registry unit =
     (case registry (c_name (u_header unit)) of
        None \<Rightarrow> ([], Inr unit)
      | Some iface \<Rightarrow> acceptAsInterface iface unit)"

text \<open>
  Modelled from the spec: the Isolated Loading Context and its \<open>resolve\<close> (spec 3, 4.1
  and 7), whose code is not in the sources.  The context owns a read-only module
  source, the interface registry, the cache of defined units and the names whose
  rewrite failed; a \<open>TypeHandle\<close> stands for the defined unit.  The spec's lifecycle
  (read once, rewritten once, defined once) is made observable by a log of the steps
  taken.  \<open>resolve\<close> answers from the cache; a name whose rewrite failed stays failed
  and is not retried; a name absent from the module source is \<open>NotFound\<close> and leaves
  the context as it was; otherwise the unit is read, rewritten with the whole
  registry, and on success defined and cached.  The lines the visitor prints are not
  part of the context.
\<close>

datatype resolve_error = NotFound | RewriteFailed

datatype load_step = Read string | Rewrite string | Define string

type_synonym type_handle = class_unit

record loading_context =
  moduleSource :: "string \<rightharpoonup> class_unit"
  interfaceRegistry :: "string \<rightharpoonup> jclass"
  cache :: "string \<rightharpoonup> type_handle"
  failed :: "string set"
  steps :: "load_step list"

definition newContext :: "(string \<rightharpoonup> class_unit) \<Rightarrow> (string \<rightharpoonup> jclass) \<Rightarrow> loading_context" where
  "newContext src registry =
     \<lparr>moduleSource = src, interfaceRegistry = registry, cache = Map.empty, failed = {},
      steps = []\<rparr>"

definition resolve ::
  "loading_context \<Rightarrow> string \<Rightarrow> (resolve_error + type_handle) \<times> loading_context" where
  "resolve ctx name =
     (case cache ctx name of
        Some h \<Rightarrow> (Inr h, ctx)
      | None \<Rightarrow>
          if name \<in> failed ctx then (Inl RewriteFailed, ctx)
          else
            (case moduleSource ctx name of
               None \<Rightarrow> (Inl NotFound, ctx)
             | Some raw \<Rightarrow>
                 (case snd (rewrite (interfaceRegistry ctx) raw) of
                    Inl e \<Rightarrow>
                      (Inl RewriteFailed,
                       ctx\<lparr>failed := insert name (failed ctx),
                           steps := steps ctx @ [Read name, Rewrite name]\<rparr>)
                  | Inr u \<Rightarrow>
                      (Inr u,
                       ctx\<lparr>cache := (cache ctx)(name \<mapsto> u),
                           steps := steps ctx @ [Read name, Rewrite name, Define name]\<rparr>))))"

text \<open>The context after resolving a list of names in order, whatever each call returned.\<close>

fun resolveAll :: "loading_context \<Rightarrow> string list \<Rightarrow> loading_context" where
  "resolveAll ctx [] = ctx"
| "resolveAll ctx (n # ns) = resolveAll (snd (resolve ctx n)) ns"

text \<open>
  The design document's example as a registry and a module source: \<open>B\<close> is wrapped by
  the interface \<open>A\<close>, \<open>C\<close> is made to satisfy \<open>D\<close>, and the source holds the class \<open>C\<close>.
\<close>

definition exampleRegistry :: "string \<rightharpoonup> jclass" where
  "exampleRegistry =
     [''io/treeverse/utils/B'' \<mapsto> JClass ''io.treeverse.utils.A'',
      ''io/treeverse/utils/C'' \<mapsto> JClass ''io.treeverse.utils.D'']"

definition exampleSource :: "string \<rightharpoonup> class_unit" where
  "exampleSource = [''io/treeverse/utils/C'' \<mapsto> classC]"

text \<open>
  What the log says of a context built by \<open>newContext\<close> and used through \<open>resolve\<close>
  only: cached and failed names come from the module source, no name is both, and
  each step of a name is logged once exactly when the name went through it.
\<close>

definition loaded_once :: "loading_context \<Rightarrow> bool" where
  "loaded_once ctx =
     (dom (cache ctx) \<subseteq> dom (moduleSource ctx) \<and> failed ctx \<subseteq> dom (moduleSource ctx)
      \<and> dom (cache ctx) \<inter> failed ctx = {}
      \<and> (\<forall>n. count_list (steps ctx) (Read n) = (if n \<in> dom (cache ctx) \<union> failed ctx then 1 else 0)
            \<and> count_list (steps ctx) (Rewrite n) = (if n \<in> dom (cache ctx) \<union> failed ctx then 1 else 0)
            \<and> count_list (steps ctx) (Define n) = (if n \<in> dom (cache ctx) then 1 else 0)))"

section \<open>Lemmas\<close>

subsection \<open>What the visitor leaves alone\<close>

text \<open>
  The replacement starts with a closing parenthesis and the pattern matches at one
  only, so the text before the first closing parenthesis of a descriptor, its
  parameter list, is never touched.
\<close>

lemma replaceAllIn_params:
  "replaceAllIn (\<lambda>m name. CHR '')'' # r) s = Inr out
   \<Longrightarrow> takeWhile (\<lambda>c. c \<noteq> CHR '')'') out = takeWhile (\<lambda>c. c \<noteq> CHR '')'') s"
proof (induction "\<lambda>(m::string) (name::string). CHR '')'' # r" s arbitrary: out rule: replaceAllIn.induct)
  case 1
  then show ?case by simp
next
  case (2 c cs)
  show ?case
  proof (cases "descReturnType (c # cs)")
    case None
    with 2 show ?thesis by (auto split: sum.splits)
  next
    case (Some p)
    then have c: "c = CHR '')''"
      by (auto simp: descReturnType_def split: list.splits if_splits)
    obtain g rest where p: "p = (g, rest)" by (cases p)
    from 2(3) Some p obtain rep where
      "expandReplacement ('')L'' @ g @ '';'') g (CHR '')'' # r) = Inr rep" 
      by (auto split: sum.splits)
    then obtain rep' where "rep = CHR '')'' # rep'" by (auto split: sum.splits)
    with 2(3) Some p c show ?thesis by (auto split: sum.splits)
  qed
qed

lemma translateDesc_params:
  "translateDesc iface desc = Inr d
   \<Longrightarrow> takeWhile (\<lambda>c. c \<noteq> CHR '')'') d = takeWhile (\<lambda>c. c \<noteq> CHR '')'') desc"
  unfolding translateDesc_def
  using replaceAllIn_params [of "CHR ''L'' # replaceAll_dot (getName iface) @ '';''" desc d]
  by simp

lemma visitMethod_frame:
  "visitMethod iface access name desc signature exceptions = (line, Inr mv)
   \<Longrightarrow> m_access mv = access \<and> m_name mv = name \<and> m_signature mv = signature
       \<and> m_exceptions mv = exceptions
       \<and> takeWhile (\<lambda>c. c \<noteq> CHR '')'') (m_desc mv) = takeWhile (\<lambda>c. c \<noteq> CHR '')'') desc"
  by (auto simp: visitMethod_def translateDesc_params split: sum.splits)

text \<open>
  A descriptor that has a closing parenthesis keeps one, and a parameter list read from
  a descriptor is read again from the same text whatever follows its parenthesis.  So
  where no parameter holds a closing parenthesis, the parameter types survive
  \<open>translateDesc\<close>.
\<close>

lemma replaceAllIn_keeps_parenthesis:
  "replaceAllIn (\<lambda>m name. CHR '')'' # r) s = Inr out \<Longrightarrow> CHR '')'' \<in> set s
   \<Longrightarrow> CHR '')'' \<in> set out"
proof (induction "\<lambda>(m::string) (name::string). CHR '')'' # r" s arbitrary: out
    rule: replaceAllIn.induct)
  case 1
  then show ?case by simp
next
  case (2 c cs)
  show ?case
  proof (cases "descReturnType (c # cs)")
    case None
    with 2 show ?thesis by (auto split: sum.splits)
  next
    case (Some p)
    obtain g rest where p: "p = (g, rest)" by (cases p)
    from 2(3) Some p obtain rep where
      "expandReplacement ('')L'' @ g @ '';'') g (CHR '')'' # r) = Inr rep"
      by (auto split: sum.splits)
    then obtain rep' where "rep = CHR '')'' # rep'" by (auto split: sum.splits)
    with 2(3) Some p show ?thesis by (auto split: sum.splits)
  qed
qed

lemma fieldType_local: "fieldType s = Some (f, rest) \<Longrightarrow> fieldType (f @ rest') = Some (f, rest')"
proof (induction s arbitrary: f rest)
  case Nil
  then show ?case by simp
next
  case (Cons c cs)
  show ?case
  proof (cases "c \<in> set ''BCDFIJSZ''")
    case True
    with Cons.prems show ?thesis by auto
  next
    case base: False
    show ?thesis
    proof (cases "c = CHR ''L''")
      case True
      with base Cons.prems obtain d where
        d: "dropWhile (\<lambda>d. d \<noteq> CHR '';'') cs = d # rest"
        and n: "takeWhile (\<lambda>d. d \<noteq> CHR '';'') cs \<noteq> []"
        and f: "f = c # takeWhile (\<lambda>d. d \<noteq> CHR '';'') cs @ [d]"
        by (auto split: list.splits if_splits)
      from d have "\<not> (hd (dropWhile (\<lambda>d. d \<noteq> CHR '';'') cs) \<noteq> CHR '';'')"
        using hd_dropWhile [of "\<lambda>d. d \<noteq> CHR '';''" cs] by simp
      with d have dd: "d = CHR '';''" by simp
      let ?n = "takeWhile (\<lambda>d. d \<noteq> CHR '';'') cs"
      have all: "\<forall>x\<in>set ?n. x \<noteq> CHR '';''" by (auto dest: set_takeWhileD)
      have t: "takeWhile (\<lambda>d. d \<noteq> CHR '';'') (?n @ CHR '';'' # rest') = ?n"
        using all by (simp add: takeWhile_append2)
      have dr: "dropWhile (\<lambda>d. d \<noteq> CHR '';'') (?n @ CHR '';'' # rest') = CHR '';'' # rest'"
        using all by (simp add: dropWhile_append2)
      from True base f dd n t dr show ?thesis by simp
    next
      case notL: False
      with base Cons.prems obtain f' where
        "fieldType cs = Some (f', rest)" and "f = c # f'" and "c = CHR ''[''"
        by (auto split: option.splits if_splits)
      with Cons.IH [of f' rest] base notL show ?thesis by simp
    qed
  qed
qed

lemma parameterDescriptors_split:
  "parameterDescriptors s = Some (ps, r) \<Longrightarrow> s = concat ps @ CHR '')'' # r"
proof (induction s arbitrary: ps r rule: parameterDescriptors.induct)
  case 1
  then show ?case by simp
next
  case (2 c cs)
  show ?case
  proof (cases "c = CHR '')''")
    case True
    with 2(2) show ?thesis by simp
  next
    case False
    with 2(2) obtain f rest fs where
      f: "fieldType (c # cs) = Some (f, rest)"
      and p: "parameterDescriptors rest = Some (fs, r)" and ps: "ps = f # fs"
      by (auto split: option.splits)
    from 2(1) [OF False f refl p] have "rest = concat fs @ CHR '')'' # r" .
    with fieldType_split [OF f] ps show ?thesis by simp
  qed
qed

lemma parameterDescriptors_local:
  "parameterDescriptors s = Some (ps, r)
   \<Longrightarrow> parameterDescriptors (concat ps @ CHR '')'' # r') = Some (ps, r')"
proof (induction s arbitrary: ps r rule: parameterDescriptors.induct)
  case 1
  then show ?case by simp
next
  case (2 c cs)
  show ?case
  proof (cases "c = CHR '')''")
    case True
    with 2(2) show ?thesis by simp
  next
    case False
    with 2(2) obtain f rest fs where
      f: "fieldType (c # cs) = Some (f, rest)"
      and p: "parameterDescriptors rest = Some (fs, r)" and ps: "ps = f # fs"
      by (auto split: option.splits)
    from 2(1) [OF False f refl p]
    have ih: "parameterDescriptors (concat fs @ CHR '')'' # r') = Some (fs, r')" .
    from fieldType_split [OF f] obtain f' where f': "f = c # f'" by (cases f) auto
    have loc: "fieldType (f @ concat fs @ CHR '')'' # r') = Some (f, concat fs @ CHR '')'' # r')"
      using f by (rule fieldType_local)
    have "parameterDescriptors (c # f' @ concat fs @ CHR '')'' # r') = Some (f # fs, r')"
      using False loc ih f' by simp
    with ps f' show ?thesis by simp
  qed
qed

lemma translateDesc_parameterTypes:
  assumes t: "translateDesc iface desc = Inr d"
    and p: "parameterTypes desc = Some ps"
    and n: "\<forall>p\<in>set ps. CHR '')'' \<notin> set p"
  shows "parameterTypes d = Some ps"
proof -
  let ?P = "\<lambda>c. c \<noteq> CHR '')''"
  from p obtain cs r where desc: "desc = CHR ''('' # cs"
    and pd: "parameterDescriptors cs = Some (ps, r)"
    by (auto simp: parameterTypes_def split: list.splits if_splits)
  from parameterDescriptors_split [OF pd] have cs: "cs = concat ps @ CHR '')'' # r" .
  have "takeWhile ?P (concat ps @ CHR '')'' # r)
          = concat ps @ takeWhile ?P (CHR '')'' # r)"
    by (rule takeWhile_append2) (use n in auto)
  then have pre: "takeWhile ?P desc = CHR ''('' # concat ps"
    by (simp add: desc cs)
  have inp: "CHR '')'' \<in> set desc" by (simp add: desc cs)
  have same: "takeWhile ?P d = takeWhile ?P desc"
    using t translateDesc_params by blast
  have "CHR '')'' \<in> set d"
    using t inp unfolding translateDesc_def
    using replaceAllIn_keeps_parenthesis
      [of "CHR ''L'' # replaceAll_dot (getName iface) @ '';''" desc d]
    by simp
  then have ne: "dropWhile ?P d \<noteq> []" by (auto simp: dropWhile_eq_Nil_conv)
  then obtain x r' where dw: "dropWhile ?P d = x # r'" by (cases "dropWhile ?P d") auto
  from hd_dropWhile [OF ne] dw have x: "x = CHR '')''" by simp
  have "d = takeWhile ?P d @ dropWhile ?P d" by simp
  with same pre dw x have d: "d = CHR ''('' # concat ps @ CHR '')'' # r'" by simp
  from parameterDescriptors_local [OF pd, of r'] show ?thesis
    by (simp add: parameterTypes_def d)
qed

lemma visitMethods_entry_points:
  "visitMethods iface ms = (out, Inr ms')
   \<Longrightarrow> list_all2
         (\<lambda>m m'. m_access (m_decl m') = m_access (m_decl m)
                \<and> m_name (m_decl m') = m_name (m_decl m)
                \<and> m_signature (m_decl m') = m_signature (m_decl m)
                \<and> m_exceptions (m_decl m') = m_exceptions (m_decl m)
                \<and> m_code m' = m_code m
                \<and> (\<forall>ps. parameterTypes (m_desc (m_decl m)) = Some ps
                          \<and> (\<forall>p\<in>set ps. CHR '')'' \<notin> set p)
                      \<longrightarrow> parameterTypes (m_desc (m_decl m')) = Some ps))
         ms ms'"
proof (induction ms arbitrary: out ms')
  case Nil
  then show ?case by simp
next
  case (Cons m ms)
  from Cons.prems obtain line mv lines rest where
    v: "visitMethod iface (m_access (m_decl m)) (m_name (m_decl m)) (m_desc (m_decl m))
          (m_signature (m_decl m)) (m_exceptions (m_decl m)) = (line, Inr mv)"
    and r: "visitMethods iface ms = (lines, Inr rest)"
    and e: "ms' = \<lparr>m_decl = mv, m_code = m_code m\<rparr> # rest"
    by (auto split: prod.splits sum.splits)
  from v have t: "translateDesc iface (m_desc (m_decl m)) = Inr (m_desc mv)"
    by (auto simp: visitMethod_def split: sum.splits)
  from Cons.IH [OF r] visitMethod_frame [OF v] e translateDesc_parameterTypes [OF t]
  show ?case by simp
qed

lemma acceptAsInterface_methods:
  "snd (acceptAsInterface iface unit) = Inr unit'
   \<Longrightarrow> \<exists>lines. visitMethods iface (u_methods unit) = (lines, Inr (u_methods unit'))"
  by (auto simp: acceptAsInterface_def Let_def split: prod.splits sum.splits)

lemma acceptAsInterface_header:
  "snd (acceptAsInterface iface unit) = Inr unit'
   \<Longrightarrow> u_header unit' = visit iface (c_version (u_header unit)) (c_access (u_header unit))
                (c_name (u_header unit)) (c_signature (u_header unit))
                (c_superName (u_header unit)) (c_interfaces (u_header unit))"
  by (auto simp: acceptAsInterface_def Let_def split: prod.splits sum.splits)

lemma accept_classC:
  "acceptAsInterface iface classC =
     ([''[DEBUG] name x desc (Lio/treeverse/utils/B;)I signature null''],
      Inr \<lparr>u_header = \<lparr>c_version = 52, c_access = 0x0021, c_name = ''io/treeverse/utils/C'',
                  c_signature = None, c_superName = Some ''java/lang/Object'',
                  c_interfaces = [getInternalName iface]\<rparr>,
           u_methods = [methodX]\<rparr>)"
  by (simp add: acceptAsInterface_def classC_def methodX_def visit_def visitMethod_def
      translateDesc_def descReturnType_def nameChar_def)

lemma classC_name: "c_name (u_header classC) = ''io/treeverse/utils/C''"
  by (simp add: classC_def)

lemma accept_arrayX:
  "acceptAsInterface (JClass ''io.treeverse.utils.D'')
     \<lparr>u_header = u_header classC,
      u_methods = [\<lparr>m_decl = \<lparr>m_access = 0x0001, m_name = ''x'',
                               m_desc = ''([Lio/treeverse/utils/B;)Lio/treeverse/utils/B;'',
                               m_signature = None, m_exceptions = None\<rparr>,
                    m_code = [ALOAD 1, BIPUSH 0, IRETURN]\<rparr>]\<rparr>
   = ([''[DEBUG] name x desc ([Lio/treeverse/utils/B;)Lio/treeverse/utils/B; signature null''],
      Inr \<lparr>u_header = \<lparr>c_version = 52, c_access = 0x0021, c_name = ''io/treeverse/utils/C'',
                  c_signature = None, c_superName = Some ''java/lang/Object'',
                  c_interfaces = [''io/treeverse/utils/D'']\<rparr>,
           u_methods = [\<lparr>m_decl = \<lparr>m_access = 0x0001, m_name = ''x'',
                               m_desc = ''([Lio/treeverse/utils/B;)Lio/treeverse/utils/D;'', m_signature = None,
                               m_exceptions = None\<rparr>,
                    m_code = [ALOAD 1, BIPUSH 0, IRETURN]\<rparr>]\<rparr>)"
  by (simp add: acceptAsInterface_def classC_def visit_def visitMethod_def
      translateDesc_def descReturnType_def nameChar_def getInternalName_def replaceAll_dot_def)

text \<open>
  A class file may name a class with a closing parenthesis in it, though none compiled
  from Java or Scala does.  There the pattern can match inside the parameter list, and
  the parameter's class is replaced.
\<close>

lemma parenthesis_in_parameter_class_name:
  "translateDesc (JClass ''io.treeverse.utils.A'') ''([Lio/treeverse/utils/B;Lfoo)Lbar;)V''
     = Inr ''([Lio/treeverse/utils/B;Lfoo)Lio/treeverse/utils/A;)V''
   \<and> parameterTypes ''([Lio/treeverse/utils/B;Lfoo)Lbar;)V''
     = Some [''[Lio/treeverse/utils/B;'', ''Lfoo)Lbar;'']
   \<and> parameterTypes ''([Lio/treeverse/utils/B;Lfoo)Lio/treeverse/utils/A;)V''
     = Some [''[Lio/treeverse/utils/B;'', ''Lfoo)Lio/treeverse/utils/A;'']"
  by (simp add: translateDesc_def descReturnType_def nameChar_def replaceAll_dot_def
      parameterTypes_def)

subsection \<open>The loading context\<close>

lemma resolve_source: "moduleSource (snd (resolve ctx n)) = moduleSource ctx"
  by (simp add: resolve_def split: option.splits sum.splits)

lemma resolve_registry: "interfaceRegistry (snd (resolve ctx n)) = interfaceRegistry ctx"
  by (simp add: resolve_def split: option.splits sum.splits)

lemma resolveAll_source: "moduleSource (resolveAll ctx ns) = moduleSource ctx"
  by (induction ns arbitrary: ctx) (simp_all add: resolve_source)

lemma resolve_cache_mono: "cache ctx k = Some h \<Longrightarrow> cache (snd (resolve ctx n)) k = Some h"
  by (auto simp: resolve_def split: option.splits sum.splits)

lemma resolveAll_cache_mono: "cache ctx k = Some h \<Longrightarrow> cache (resolveAll ctx ns) k = Some h"
  by (induction ns arbitrary: ctx) (simp_all add: resolve_cache_mono)

lemma resolve_cached: "cache ctx n = Some h \<Longrightarrow> resolve ctx n = (Inr h, ctx)"
  by (simp add: resolve_def)

lemma resolve_success_cached: "resolve ctx n = (Inr h, ctx') \<Longrightarrow> cache ctx' n = Some h"
  by (auto simp: resolve_def split: option.splits sum.splits if_splits)

lemma loaded_once_new: "loaded_once (newContext src registry)"
  by (simp add: loaded_once_def newContext_def)

lemma loaded_once_resolve: "loaded_once ctx \<Longrightarrow> loaded_once (snd (resolve ctx n))"
  unfolding loaded_once_def resolve_def
  by (auto split: option.splits sum.splits)

lemma loaded_once_resolveAll: "loaded_once ctx \<Longrightarrow> loaded_once (resolveAll ctx ns)"
  by (induction ns arbitrary: ctx) (simp_all add: loaded_once_resolve)

lemma loaded_once_counts:
  "loaded_once ctx \<Longrightarrow> cache ctx n = Some h \<Longrightarrow>
     count_list (steps ctx) (Read n) = 1 \<and> count_list (steps ctx) (Rewrite n) = 1
     \<and> count_list (steps ctx) (Define n) = 1"
  unfolding loaded_once_def by (auto simp: dom_def)

lemma loaded_once_absent:
  "loaded_once ctx \<Longrightarrow> moduleSource ctx n = None \<Longrightarrow> resolve ctx n = (Inl NotFound, ctx)"
  unfolding loaded_once_def resolve_def
  by (auto split: option.splits)

section \<open>Properties of the rewriter and of the context\<close>

subsection \<open>The class header\<close>

text \<open>
  C10.  The class-header rewrite preserves every header field other than the interface
  list: for every visited class, the version, access flags, class name, generic
  signature and super-class name that \<open>visit\<close> passes on are the ones it received, and
  the original interface list is, in order, a prefix of the list it passes on.
\<close>

theorem visit_preserves_header:
  "c_version (visit iface version access name signature superName interfaces) = version
   \<and> c_access (visit iface version access name signature superName interfaces) = access
   \<and> c_name (visit iface version access name signature superName interfaces) = name
   \<and> c_signature (visit iface version access name signature superName interfaces) = signature
   \<and> c_superName (visit iface version access name signature superName interfaces) = superName
   \<and> prefix interfaces
        (c_interfaces (visit iface version access name signature superName interfaces))
   \<and> take (length interfaces)
        (c_interfaces (visit iface version access name signature superName interfaces))
      = interfaces"
  by (simp add: visit_def)


subsection \<open>Conformance injection\<close>

text \<open>
  C3.  For every module unit the registry names, the rewritten unit's list of declared
  interfaces is the original list with the mapped interface appended at the end;
  nothing else is added or removed.  The visitor is built for such a unit with the
  interface \<open>iface\<close> the registry maps its name to, and \<open>acceptAsInterface iface\<close> is the
  unit read through it.
\<close>

theorem conformance_injection:
  assumes "snd (acceptAsInterface iface unit) = Inr unit'"
  shows "c_interfaces (u_header unit') = c_interfaces (u_header unit) @ [getInternalName iface]"
  using acceptAsInterface_header [OF assms] by (simp add: visit_def)

theorem conformance_injection_witness:
  "snd (acceptAsInterface (JClass ''io.treeverse.utils.D'') classC)
     = Inr \<lparr>u_header = \<lparr>c_version = 52, c_access = 0x0021, c_name = ''io/treeverse/utils/C'',
                  c_signature = None, c_superName = Some ''java/lang/Object'',
                  c_interfaces = [''io/treeverse/utils/D'']\<rparr>,
           u_methods = [methodX]\<rparr>
   \<and> c_interfaces (u_header \<lparr>u_header = \<lparr>c_version = 52, c_access = 0x0021, c_name = ''io/treeverse/utils/C'',
                  c_signature = None, c_superName = Some ''java/lang/Object'',
                  c_interfaces = [''io/treeverse/utils/D'']\<rparr>,
           u_methods = [methodX]\<rparr>) = c_interfaces (u_header classC) @ [''io/treeverse/utils/D'']"
proof -
  have h: "snd (acceptAsInterface (JClass ''io.treeverse.utils.D'') classC)
     = Inr \<lparr>u_header = \<lparr>c_version = 52, c_access = 0x0021, c_name = ''io/treeverse/utils/C'',
                  c_signature = None, c_superName = Some ''java/lang/Object'',
                  c_interfaces = [''io/treeverse/utils/D'']\<rparr>,
           u_methods = [methodX]\<rparr>"
    by (simp add: accept_classC getInternalName_def)
  show ?thesis using h conformance_injection [OF h] by (simp add: getInternalName_def)
qed


subsection \<open>Entry points\<close>

text \<open>
  C7, as amended.  For every entry point, and so for each whose mapped parameter type
  is nested inside an array, a generic container or a function type, the rewriter
  emits the entry point once, in place, under the same name, with the same access
  flags, generic signature, exceptions and body, and, where no parameter descriptor
  holds a closing parenthesis (none compiled from Java or Scala does), with the same
  parameter types.  The rewritten unit has one entry point per original entry point,
  in order: no overload is synthesized and no condition is recorded.
\<close>

theorem nested_parameter_left_alone:
  assumes "snd (acceptAsInterface iface unit) = Inr unit'"
  shows "list_all2
           (\<lambda>m m'. m_access (m_decl m') = m_access (m_decl m)
                  \<and> m_name (m_decl m') = m_name (m_decl m)
                  \<and> m_signature (m_decl m') = m_signature (m_decl m)
                  \<and> m_exceptions (m_decl m') = m_exceptions (m_decl m)
                  \<and> m_code m' = m_code m
                  \<and> (\<forall>ps. parameterTypes (m_desc (m_decl m)) = Some ps
                            \<and> (\<forall>p\<in>set ps. CHR '')'' \<notin> set p)
                        \<longrightarrow> parameterTypes (m_desc (m_decl m')) = Some ps))
           (u_methods unit) (u_methods unit')"
proof -
  from acceptAsInterface_methods [OF assms] obtain lines where
    "visitMethods iface (u_methods unit) = (lines, Inr (u_methods unit'))" ..
  then show ?thesis by (rule visitMethods_entry_points)
qed

theorem nested_parameter_left_alone_witness:
  "snd (acceptAsInterface (JClass ''io.treeverse.utils.D'')
     \<lparr>u_header = u_header classC,
      u_methods = [\<lparr>m_decl = \<lparr>m_access = 0x0001, m_name = ''x'',
                               m_desc = ''([Lio/treeverse/utils/B;)Lio/treeverse/utils/B;'',
                               m_signature = None, m_exceptions = None\<rparr>,
                    m_code = [ALOAD 1, BIPUSH 0, IRETURN]\<rparr>]\<rparr>)
   = Inr \<lparr>u_header = \<lparr>c_version = 52, c_access = 0x0021, c_name = ''io/treeverse/utils/C'',
                  c_signature = None, c_superName = Some ''java/lang/Object'',
                  c_interfaces = [''io/treeverse/utils/D'']\<rparr>,
           u_methods = [\<lparr>m_decl = \<lparr>m_access = 0x0001, m_name = ''x'',
                               m_desc = ''([Lio/treeverse/utils/B;)Lio/treeverse/utils/D;'',
                               m_signature = None, m_exceptions = None\<rparr>,
                    m_code = [ALOAD 1, BIPUSH 0, IRETURN]\<rparr>]\<rparr>
   \<and> parameterTypes ''([Lio/treeverse/utils/B;)Lio/treeverse/utils/B;''
       = Some [''[Lio/treeverse/utils/B;'']
   \<and> CHR '')'' \<notin> set ''[Lio/treeverse/utils/B;''
   \<and> parameterTypes ''([Lio/treeverse/utils/B;)Lio/treeverse/utils/D;''
       = Some [''[Lio/treeverse/utils/B;'']"
proof -
  have h: "snd (acceptAsInterface (JClass ''io.treeverse.utils.D'')
     \<lparr>u_header = u_header classC,
      u_methods = [\<lparr>m_decl = \<lparr>m_access = 0x0001, m_name = ''x'',
                               m_desc = ''([Lio/treeverse/utils/B;)Lio/treeverse/utils/B;'',
                               m_signature = None, m_exceptions = None\<rparr>,
                    m_code = [ALOAD 1, BIPUSH 0, IRETURN]\<rparr>]\<rparr>)
   = Inr \<lparr>u_header = \<lparr>c_version = 52, c_access = 0x0021, c_name = ''io/treeverse/utils/C'',
                  c_signature = None, c_superName = Some ''java/lang/Object'',
                  c_interfaces = [''io/treeverse/utils/D'']\<rparr>,
           u_methods = [\<lparr>m_decl = \<lparr>m_access = 0x0001, m_name = ''x'',
                               m_desc = ''([Lio/treeverse/utils/B;)Lio/treeverse/utils/D;'',
                               m_signature = None, m_exceptions = None\<rparr>,
                    m_code = [ALOAD 1, BIPUSH 0, IRETURN]\<rparr>]\<rparr>"
    by (simp only: accept_arrayX snd_conv)
  have p: "parameterTypes ''([Lio/treeverse/utils/B;)Lio/treeverse/utils/B;''
       = Some [''[Lio/treeverse/utils/B;'']"
    by (simp add: parameterTypes_def)
  have n: "CHR '')'' \<notin> set ''[Lio/treeverse/utils/B;''"
    by simp
  from nested_parameter_left_alone [OF h] p n
  have q: "parameterTypes ''([Lio/treeverse/utils/B;)Lio/treeverse/utils/D;''
       = Some [''[Lio/treeverse/utils/B;'']"
    by simp
  from h p n q show ?thesis by blast
qed

text \<open>
  C7 as first stated fails: a method \<open>x\<close> of \<open>C\<close> that takes an array of \<open>B\<close> is emitted
  once with its descriptor as it was, and the emitted unit has no \<open>x\<close> that takes an
  array of \<open>A\<close>; the visitor's result has no place for a recorded condition.
\<close>

theorem nested_parameter_no_overload:
  "acceptAsInterface (JClass ''io.treeverse.utils.D'')
     \<lparr>u_header = u_header classC,
      u_methods = [\<lparr>m_decl = \<lparr>m_access = 0x0001, m_name = ''x'',
                               m_desc = ''([Lio/treeverse/utils/B;)I'', m_signature = None,
                               m_exceptions = None\<rparr>,
                    m_code = [BIPUSH 11, IRETURN]\<rparr>]\<rparr>
   = ([''[DEBUG] name x desc ([Lio/treeverse/utils/B;)I signature null''],
      Inr \<lparr>u_header = \<lparr>c_version = 52, c_access = 0x0021, c_name = ''io/treeverse/utils/C'',
                  c_signature = None, c_superName = Some ''java/lang/Object'',
                  c_interfaces = [''io/treeverse/utils/D'']\<rparr>,
           u_methods = [\<lparr>m_decl = \<lparr>m_access = 0x0001, m_name = ''x'',
                               m_desc = ''([Lio/treeverse/utils/B;)I'', m_signature = None,
                               m_exceptions = None\<rparr>,
                    m_code = [BIPUSH 11, IRETURN]\<rparr>]\<rparr>)
   \<and> find (\<lambda>m. m_name (m_decl m) = ''x'' \<and> m_desc (m_decl m) = ''([Lio/treeverse/utils/A;)I'')
        [\<lparr>m_decl = \<lparr>m_access = 0x0001, m_name = ''x'',
                               m_desc = ''([Lio/treeverse/utils/B;)I'', m_signature = None,
                               m_exceptions = None\<rparr>,
                    m_code = [BIPUSH 11, IRETURN]\<rparr>] = None"
  by (simp add: acceptAsInterface_def classC_def visit_def visitMethod_def
      translateDesc_def descReturnType_def nameChar_def getInternalName_def)

subsection \<open>Resolution\<close>

text \<open>
  C8.  \<open>resolve\<close> is idempotent: once a name has resolved to a handle in a context
  (here any context reached from a new one by resolving names), calling \<open>resolve\<close> again
  with that name, at once or after any further calls, returns the same handle and
  leaves the context as it is; and the log of that context, at every later moment,
  holds exactly one read, one rewrite and one definition of the name.
\<close>

theorem resolve_idempotent:
  assumes "resolve (resolveAll (newContext src registry) before) name = (Inr h, ctx')"
  shows "resolve ctx' name = (Inr h, ctx')
         \<and> resolve (resolveAll ctx' later) name = (Inr h, resolveAll ctx' later)
         \<and> count_list (steps (resolveAll ctx' later)) (Read name) = 1
         \<and> count_list (steps (resolveAll ctx' later)) (Rewrite name) = 1
         \<and> count_list (steps (resolveAll ctx' later)) (Define name) = 1"
proof -
  let ?ctx = "resolveAll (newContext src registry) before"
  have c: "cache ctx' name = Some h" using assms by (rule resolve_success_cached)
  have "loaded_once ?ctx" by (simp add: loaded_once_new loaded_once_resolveAll)
  then have "loaded_once (snd (resolve ?ctx name))" by (rule loaded_once_resolve)
  with assms have "loaded_once ctx'" by simp
  then have l: "loaded_once (resolveAll ctx' later)" by (rule loaded_once_resolveAll)
  have c': "cache (resolveAll ctx' later) name = Some h" using c by (rule resolveAll_cache_mono)
  show ?thesis
    using resolve_cached [OF c] resolve_cached [OF c'] loaded_once_counts [OF l c'] by simp
qed


theorem resolve_idempotent_witness:
  "resolve (resolveAll (newContext exampleSource exampleRegistry) []) ''io/treeverse/utils/C''
     = (Inr \<lparr>u_header = \<lparr>c_version = 52, c_access = 0x0021, c_name = ''io/treeverse/utils/C'',
                    c_signature = None, c_superName = Some ''java/lang/Object'',
                    c_interfaces = [''io/treeverse/utils/D'']\<rparr>,
              u_methods = [methodX]\<rparr>,
        \<lparr>moduleSource = exampleSource, interfaceRegistry = exampleRegistry,
         cache = [''io/treeverse/utils/C'' \<mapsto>
                    \<lparr>u_header = \<lparr>c_version = 52, c_access = 0x0021,
                                 c_name = ''io/treeverse/utils/C'', c_signature = None,
                                 c_superName = Some ''java/lang/Object'',
                                 c_interfaces = [''io/treeverse/utils/D'']\<rparr>,
                     u_methods = [methodX]\<rparr>],
         failed = {},
         steps = [Read ''io/treeverse/utils/C'', Rewrite ''io/treeverse/utils/C'',
                  Define ''io/treeverse/utils/C'']\<rparr>)
   \<and> fst (resolve
         (resolveAll
            \<lparr>moduleSource = exampleSource, interfaceRegistry = exampleRegistry,
             cache = [''io/treeverse/utils/C'' \<mapsto>
                    \<lparr>u_header = \<lparr>c_version = 52, c_access = 0x0021,
                                 c_name = ''io/treeverse/utils/C'', c_signature = None,
                                 c_superName = Some ''java/lang/Object'',
                                 c_interfaces = [''io/treeverse/utils/D'']\<rparr>,
                     u_methods = [methodX]\<rparr>],
             failed = {},
             steps = [Read ''io/treeverse/utils/C'', Rewrite ''io/treeverse/utils/C'',
                      Define ''io/treeverse/utils/C'']\<rparr>
            [''io/treeverse/utils/Missing'', ''io/treeverse/utils/C''])
         ''io/treeverse/utils/C'')
     = Inr \<lparr>u_header = \<lparr>c_version = 52, c_access = 0x0021, c_name = ''io/treeverse/utils/C'',
                   c_signature = None, c_superName = Some ''java/lang/Object'',
                   c_interfaces = [''io/treeverse/utils/D'']\<rparr>,
             u_methods = [methodX]\<rparr>
   \<and> count_list
        (steps (resolveAll
            \<lparr>moduleSource = exampleSource, interfaceRegistry = exampleRegistry,
             cache = [''io/treeverse/utils/C'' \<mapsto>
                    \<lparr>u_header = \<lparr>c_version = 52, c_access = 0x0021,
                                 c_name = ''io/treeverse/utils/C'', c_signature = None,
                                 c_superName = Some ''java/lang/Object'',
                                 c_interfaces = [''io/treeverse/utils/D'']\<rparr>,
                     u_methods = [methodX]\<rparr>],
             failed = {},
             steps = [Read ''io/treeverse/utils/C'', Rewrite ''io/treeverse/utils/C'',
                      Define ''io/treeverse/utils/C'']\<rparr>
            [''io/treeverse/utils/Missing'', ''io/treeverse/utils/C'']))
        (Define ''io/treeverse/utils/C'') = 1"
proof -
  have h: "resolve (resolveAll (newContext exampleSource exampleRegistry) [])
             ''io/treeverse/utils/C''
     = (Inr \<lparr>u_header = \<lparr>c_version = 52, c_access = 0x0021, c_name = ''io/treeverse/utils/C'',
                    c_signature = None, c_superName = Some ''java/lang/Object'',
                    c_interfaces = [''io/treeverse/utils/D'']\<rparr>,
              u_methods = [methodX]\<rparr>,
        \<lparr>moduleSource = exampleSource, interfaceRegistry = exampleRegistry,
         cache = [''io/treeverse/utils/C'' \<mapsto>
                    \<lparr>u_header = \<lparr>c_version = 52, c_access = 0x0021,
                                 c_name = ''io/treeverse/utils/C'', c_signature = None,
                                 c_superName = Some ''java/lang/Object'',
                                 c_interfaces = [''io/treeverse/utils/D'']\<rparr>,
                     u_methods = [methodX]\<rparr>],
         failed = {},
         steps = [Read ''io/treeverse/utils/C'', Rewrite ''io/treeverse/utils/C'',
                  Define ''io/treeverse/utils/C'']\<rparr>)"
    by (simp add: resolve_def newContext_def rewrite_def exampleSource_def exampleRegistry_def
        classC_name accept_classC getInternalName_def)
  show ?thesis
    using h resolve_idempotent [OF h,
        of "[''io/treeverse/utils/Missing'', ''io/treeverse/utils/C'']"]
    by simp
qed


text \<open>
  C9.  For every name absent from the module source, \<open>resolve\<close> returns \<open>NotFound\<close> and
  leaves the context, its cache included, unchanged; and whatever is resolved
  afterwards, resolving that name again fails with \<open>NotFound\<close> again.
\<close>

theorem resolve_NotFound:
  assumes "src name = None"
  shows "resolve (resolveAll (newContext src registry) before) name
           = (Inl NotFound, resolveAll (newContext src registry) before)
         \<and> cache (snd (resolve (resolveAll (newContext src registry) before) name))
           = cache (resolveAll (newContext src registry) before)
         \<and> fst (resolve (resolveAll (snd (resolve (resolveAll (newContext src registry) before) name)) later) name)
           = Inl NotFound"
proof -
  have inv: "loaded_once (resolveAll (newContext src registry) ns)" for ns
    by (simp add: loaded_once_new loaded_once_resolveAll)
  have src: "moduleSource (resolveAll (newContext src registry) ns) name = None" for ns
    using assms by (simp add: resolveAll_source newContext_def)
  have nf: "resolve (resolveAll (newContext src registry) ns) name
           = (Inl NotFound, resolveAll (newContext src registry) ns)" for ns
    using inv src by (rule loaded_once_absent)
  have app: "resolveAll (resolveAll c xs) ys = resolveAll c (xs @ ys)" for c xs ys
    by (induction xs arbitrary: c) simp_all
  show ?thesis using nf [of before] nf [of "before @ later"] by (simp add: app)
qed

theorem resolve_NotFound_witness:
  "exampleSource ''io/treeverse/utils/Missing'' = None
   \<and> resolve (resolveAll (newContext exampleSource exampleRegistry) [''io/treeverse/utils/C''])
        ''io/treeverse/utils/Missing''
     = (Inl NotFound,
        resolveAll (newContext exampleSource exampleRegistry) [''io/treeverse/utils/C''])
   \<and> cache (snd (resolve
        (resolveAll (newContext exampleSource exampleRegistry) [''io/treeverse/utils/C''])
        ''io/treeverse/utils/Missing''))
     = cache (resolveAll (newContext exampleSource exampleRegistry) [''io/treeverse/utils/C''])
   \<and> fst (resolve
        (resolveAll
           (snd (resolve
              (resolveAll (newContext exampleSource exampleRegistry) [''io/treeverse/utils/C''])
              ''io/treeverse/utils/Missing''))
           [''io/treeverse/utils/C''])
        ''io/treeverse/utils/Missing'')
     = Inl NotFound"
proof -
  have h: "exampleSource ''io/treeverse/utils/Missing'' = None"
    by (simp add: exampleSource_def)
  show ?thesis
    by (rule conjI [OF h resolve_NotFound [where src = exampleSource
        and name = "''io/treeverse/utils/Missing''" and registry = exampleRegistry
        and before = "[''io/treeverse/utils/C'']" and later = "[''io/treeverse/utils/C'']",
        OF h]])
qed

subsection \<open>Where the visitor departs from the design document\<close>

text \<open>
  C1.  The design document has the loader translate a parameter of a mapped type to
  the interface and put a cast at the top of the method.  The visitor does neither:
  whatever interface it was built with, \<open>visitMethod\<close> forwards the descriptor
  \<open>(Lio/treeverse/utils/B;)I\<close> of \<open>C.x\<close> as it is, and the method is emitted with its
  body as read, whose first instruction is \<open>aload_1\<close>.
\<close>

theorem direct_parameter_type_kept:
  "visitMethod iface 0x0001 ''x'' ''(Lio/treeverse/utils/B;)I'' None None
     = (''[DEBUG] name x desc (Lio/treeverse/utils/B;)I signature null'',
        Inr \<lparr>m_access = 0x0001, m_name = ''x'', m_desc = ''(Lio/treeverse/utils/B;)I'',
             m_signature = None, m_exceptions = None\<rparr>)
   \<and> snd (visitMethods iface [methodX]) = Inr [methodX]
   \<and> hd (m_code methodX) = ALOAD 1"
  by (simp add: methodX_def visitMethod_def translateDesc_def descReturnType_def nameChar_def)

text \<open>
  C2.  The design document has the loader leave return types alone.  \<open>translateDesc\<close>
  replaces every object return type that the pattern matches, mapped or not, by the
  visitor's interface: a method returning \<open>java.lang.String\<close> and one returning \<open>B\<close> are
  both emitted as returning \<open>A\<close>.
\<close>

theorem return_type_rewritten:
  "translateDesc (JClass ''io.treeverse.utils.A'') ''()Ljava/lang/String;''
     = Inr ''()Lio/treeverse/utils/A;''
   \<and> translateDesc (JClass ''io.treeverse.utils.A'') ''(I)Lio/treeverse/utils/B;''
     = Inr ''(I)Lio/treeverse/utils/A;''
   \<and> snd (visitMethod (JClass ''io.treeverse.utils.A'') 0x0001 ''name'' ''()Ljava/lang/String;''
          None None)
     = Inr \<lparr>m_access = 0x0001, m_name = ''name'', m_desc = ''()Lio/treeverse/utils/A;'',
            m_signature = None, m_exceptions = None\<rparr>"
  by (simp add: visitMethod_def translateDesc_def descReturnType_def nameChar_def
      replaceAll_dot_def)

text \<open>
  C4.  A cast failure can only come from a cast.  The unit emitted for \<open>C\<close> holds the
  method \<open>x\<close> with the parameter type \<open>B\<close> and the four instructions of the original;
  none of them is a \<open>checkcast\<close>.
\<close>

theorem rewritten_body_has_no_cast:
  "snd (acceptAsInterface iface classC)
     = Inr \<lparr>u_header = \<lparr>c_version = 52, c_access = 0x0021, c_name = ''io/treeverse/utils/C'',
                  c_signature = None, c_superName = Some ''java/lang/Object'',
                  c_interfaces = [getInternalName iface]\<rparr>,
           u_methods =
             [\<lparr>m_decl = \<lparr>m_access = 0x0001, m_name = ''x'',
                         m_desc = ''(Lio/treeverse/utils/B;)I'', m_signature = None,
                         m_exceptions = None\<rparr>,
               m_code = [ALOAD 1, BIPUSH 11,
                         INVOKEVIRTUAL ''io/treeverse/utils/B'' ''a'' ''(I)I'', IRETURN]\<rparr>]\<rparr>
   \<and> (\<forall>c. CHECKCAST c \<notin> set [ALOAD 1, BIPUSH 11,
                         INVOKEVIRTUAL ''io/treeverse/utils/B'' ''a'' ''(I)I'', IRETURN])"
  by (simp add: accept_classC methodX_def)

text \<open>
  C5.  In the example (\<open>B\<close> wrapped by \<open>A\<close>; \<open>C.x\<close> takes a \<open>B\<close>), the rewritten \<open>C\<close> has the
  single method \<open>x\<close> with the descriptor \<open>(Lio/treeverse/utils/B;)I\<close>, whether the
  registry names \<open>C\<close> or not: there is no interface-typed overload to call.
\<close>

theorem no_interface_typed_overload:
  "rewrite [''io/treeverse/utils/B'' \<mapsto> JClass ''io.treeverse.utils.A''] classC = ([], Inr classC)
   \<and> snd (rewrite exampleRegistry classC)
       = Inr \<lparr>u_header = \<lparr>c_version = 52, c_access = 0x0021, c_name = ''io/treeverse/utils/C'',
                    c_signature = None, c_superName = Some ''java/lang/Object'',
                    c_interfaces = [''io/treeverse/utils/D'']\<rparr>,
              u_methods = [methodX]\<rparr>
   \<and> map (\<lambda>m. (m_name (m_decl m), m_desc (m_decl m))) [methodX]
       = [(''x'', ''(Lio/treeverse/utils/B;)I'')]
   \<and> find (\<lambda>m. m_name (m_decl m) = ''x'' \<and> m_desc (m_decl m) = ''(Lio/treeverse/utils/A;)I'')
        [methodX] = None"
proof -
  have a: "rewrite [''io/treeverse/utils/B'' \<mapsto> JClass ''io.treeverse.utils.A''] classC
             = ([], Inr classC)"
    by (simp add: rewrite_def classC_name)
  have b: "snd (rewrite exampleRegistry classC)
       = Inr \<lparr>u_header = \<lparr>c_version = 52, c_access = 0x0021, c_name = ''io/treeverse/utils/C'',
                    c_signature = None, c_superName = Some ''java/lang/Object'',
                    c_interfaces = [''io/treeverse/utils/D'']\<rparr>,
              u_methods = [methodX]\<rparr>"
    by (simp add: rewrite_def exampleRegistry_def classC_name accept_classC getInternalName_def)
  have c: "map (\<lambda>m. (m_name (m_decl m), m_desc (m_decl m))) [methodX]
       = [(''x'', ''(Lio/treeverse/utils/B;)I'')]"
    by (simp add: methodX_def)
  have d: "find (\<lambda>m. m_name (m_decl m) = ''x'' \<and> m_desc (m_decl m) = ''(Lio/treeverse/utils/A;)I'')
        [methodX] = None"
    by (simp add: methodX_def)
  from a b c d show ?thesis by blast
qed

text \<open>
  C6.  The design document's rewritten entry point forwards to the original and so
  runs as it does.  The unit the visitor emits does not: for \<open>E\<close> it renames the return
  type of \<open>pick\<close> to the interface and leaves the body of \<open>x\<close> as read, so \<open>x\<close> still
  invokes \<open>pick\<close> with the descriptor that returns \<open>B\<close>.  The original class has that
  method and the emitted class has none; nor has it an \<open>x\<close> that takes the interface
  \<open>A\<close>.
\<close>

theorem rewritten_entry_point_invokes_missing_method:
  "snd (acceptAsInterface (JClass ''io.treeverse.utils.D'') classE)
     = Inr \<lparr>u_header = \<lparr>c_version = 52, c_access = 0x0021, c_name = ''io/treeverse/utils/E'',
                  c_signature = None, c_superName = Some ''java/lang/Object'',
                  c_interfaces = [''io/treeverse/utils/D'']\<rparr>,
            u_methods =
              [\<lparr>m_decl = \<lparr>m_access = 0x0001, m_name = ''pick'',
                          m_desc = ''(Lio/treeverse/utils/B;)Lio/treeverse/utils/D;'',
                          m_signature = None, m_exceptions = None\<rparr>,
                m_code = [ALOAD 1, ARETURN]\<rparr>,
               \<lparr>m_decl = \<lparr>m_access = 0x0001, m_name = ''x'',
                          m_desc = ''(Lio/treeverse/utils/B;)I'',
                          m_signature = None, m_exceptions = None\<rparr>,
                m_code = [ALOAD 0, ALOAD 1,
                          INVOKEVIRTUAL ''io/treeverse/utils/E'' ''pick''
                            ''(Lio/treeverse/utils/B;)Lio/treeverse/utils/B;'',
                          BIPUSH 11, INVOKEVIRTUAL ''io/treeverse/utils/B'' ''a'' ''(I)I'',
                          IRETURN]\<rparr>]\<rparr>
   \<and> find (\<lambda>m. m_name (m_decl m) = ''pick''
                \<and> m_desc (m_decl m) = ''(Lio/treeverse/utils/B;)Lio/treeverse/utils/B;'')
        (u_methods classE) = Some methodPick
   \<and> find (\<lambda>m. m_name (m_decl m) = ''pick''
                \<and> m_desc (m_decl m) = ''(Lio/treeverse/utils/B;)Lio/treeverse/utils/B;'')
        [\<lparr>m_decl = \<lparr>m_access = 0x0001, m_name = ''pick'',
                    m_desc = ''(Lio/treeverse/utils/B;)Lio/treeverse/utils/D;'',
                    m_signature = None, m_exceptions = None\<rparr>,
          m_code = [ALOAD 1, ARETURN]\<rparr>,
         methodXviaPick] = None
   \<and> find (\<lambda>m. m_name (m_decl m) = ''x'' \<and> m_desc (m_decl m) = ''(Lio/treeverse/utils/A;)I'')
        [\<lparr>m_decl = \<lparr>m_access = 0x0001, m_name = ''pick'',
                    m_desc = ''(Lio/treeverse/utils/B;)Lio/treeverse/utils/D;'',
                    m_signature = None, m_exceptions = None\<rparr>,
          m_code = [ALOAD 1, ARETURN]\<rparr>,
         methodXviaPick] = None"
  by (simp add: acceptAsInterface_def classE_def methodPick_def methodXviaPick_def visit_def
      visitMethod_def translateDesc_def descReturnType_def nameChar_def getInternalName_def
      replaceAll_dot_def)

end
